theory Spec2Isabelle
  imports Main "HOL-Library.AList"
begin

section \<open>The session broker: instance manager and session store\<close>

text \<open>
  A shallow embedding of \<^verbatim>\<open>auth_service/instance_manager.py\<close> and of the class
  \<^verbatim>\<open>SessionStore\<close> of \<^verbatim>\<open>auth_service/main.py\<close>. Mutation is explicit state passing:
  every method takes the state and returns its result together with the new state, also
  when it raises. What the operating system answers (the return code of the VNC server,
  whether a \<^verbatim>\<open>Popen\<close> succeeds, whether a process exits on SIGTERM) is an argument of
  the call. The two locks are not modelled: every method runs as one atomic step.
\<close>

subsection \<open>Processes and displays\<close>

type_synonym pid = nat

text \<open>
  A \<^verbatim>\<open>Popen\<close> handle is a process id. A running process carries how it answers SIGTERM:
  \<open>Running True\<close> exits on it (within the five seconds that \<^verbatim>\<open>stop_session\<close> waits),
  \<open>Running False\<close> does not.
\<close>

datatype pstatus = Running bool | Exited

text \<open>What a \<^verbatim>\<open>subprocess.Popen\<close> call does: it raises (\<open>SpawnFails\<close>) or starts a process.\<close>

datatype spawn = SpawnFails | Spawns bool

text \<open>The environment's answers during one provisioning attempt.\<close>

record attempt =
  vnc_returncode :: int
  dosbox_spawn :: spawn
  websockify_spawn :: spawn

text \<open>The dataclass \<^verbatim>\<open>Instance\<close>.\<close>

record Instance =
  session_id :: string
  username :: string
  display :: int
  websocket_port :: int
  processes :: "pid list"

text \<open>A row of the table \<^verbatim>\<open>sessions\<close>; the two nullable columns are options.\<close>

record row =
  col_session_id :: string
  col_username :: string
  col_display :: "int option"
  col_websocket_port :: "int option"
  col_created_at :: int
  col_last_seen :: int

text \<open>The constructor arguments of \<^verbatim>\<open>InstanceManager\<close> and \<^verbatim>\<open>SessionStore\<close> that the methods read.\<close>

record config =
  base_display :: int
  max_instances :: int
  base_websocket_port :: int
  idle_timeout :: int
  absolute_timeout :: int

text \<open>
  The state: the dictionary \<^verbatim>\<open>_instances\<close> (in insertion order), the rows of the table,
  and the machine: the processes started so far, the next process id, and the displays
  on which a VNC server runs.
\<close>

record state =
  instances :: "(string \<times> Instance) list"
  sessions :: "row list"
  procs :: "pid \<rightharpoonup> pstatus"
  next_pid :: pid
  vnc_up :: "int set"

datatype step = Start_vnc | Start_dosbox | Start_websockify

text \<open>
  \<^verbatim>\<open>InstanceError\<close> with its three messages: "No free session slots available",
  "Failed to provision session: ..." and "Failed to resume session: ...", the last two
  with the step whose exception they wrap.
\<close>

datatype instance_error = No_free_slots | Failed_to_provision step | Failed_to_resume step

datatype error = InstanceError instance_error | IntegrityError

text \<open>\<^verbatim>\<open>proc.poll() is None\<close>: the process is still running.\<close>

definition poll_is_None :: "state \<Rightarrow> pid \<Rightarrow> bool" where
  "poll_is_None s p = (case procs s p of Some (Running _) \<Rightarrow> True | _ \<Rightarrow> False)"

text \<open>
  \<^verbatim>\<open>proc.terminate()\<close> sends SIGTERM; only a process that obeys it exits (at once, in
  this model: the most a caller that does not wait can hope for).
\<close>

definition terminate :: "pid \<Rightarrow> state \<Rightarrow> state" where
  "terminate p s =
     (case procs s p of
        Some (Running True) \<Rightarrow> s\<lparr>procs := (procs s)(p \<mapsto> Exited)\<rparr>
      | _ \<Rightarrow> s)"

text \<open>\<^verbatim>\<open>proc.kill()\<close> sends SIGKILL.\<close>

definition kill :: "pid \<Rightarrow> state \<Rightarrow> state" where
  "kill p s =
     (case procs s p of
        Some (Running _) \<Rightarrow> s\<lparr>procs := (procs s)(p \<mapsto> Exited)\<rparr>
      | _ \<Rightarrow> s)"

text \<open>\<^verbatim>\<open>_spawn_process\<close>: \<open>None\<close> when \<^verbatim>\<open>Popen\<close> raises, else the new handle.\<close>

definition spawn_process :: "spawn \<Rightarrow> state \<Rightarrow> pid option \<times> state" where
  "spawn_process sp s =
     (case sp of
        SpawnFails \<Rightarrow> (None, s)
      | Spawns obeys \<Rightarrow>
          (Some (next_pid s),
           s\<lparr>procs := (procs s)(next_pid s \<mapsto> Running obeys), next_pid := Suc (next_pid s)\<rparr>))"

text \<open>\<^verbatim>\<open>subprocess.run([vnc_binary, "-kill", ":display"], check=False)\<close>.\<close>

definition vnc_kill :: "int \<Rightarrow> state \<Rightarrow> state" where
  "vnc_kill d s = s\<lparr>vnc_up := vnc_up s - {d}\<rparr>"

text \<open>
  \<^verbatim>\<open>_start_vnc\<close>: kill what runs on the display, start the server, raise when its return
  code is not zero. The boolean is False when it raises.
\<close>

definition start_vnc :: "int \<Rightarrow> int \<Rightarrow> state \<Rightarrow> bool \<times> state" where
  "start_vnc rc d s =
     (let s1 = vnc_kill d s
      in if rc \<noteq> 0 then (False, s1) else (True, s1\<lparr>vnc_up := insert d (vnc_up s1)\<rparr>))"

subsection \<open>InstanceManager\<close>

definition used_displays :: "state \<Rightarrow> int list" where
  "used_displays s = map (\<lambda>(k, i). display i) (instances s)"

text \<open>The loop of \<^verbatim>\<open>_allocate_slot\<close> over \<^verbatim>\<open>range(max_instances)\<close>.\<close>

fun first_free :: "config \<Rightarrow> int list \<Rightarrow> nat list \<Rightarrow> (int \<times> int) option" where
  "first_free c used [] = None"
| "first_free c used (offset # rest) =
     (if base_display c + int offset \<notin> set used
      then Some (base_display c + int offset, base_websocket_port c + int offset)
      else first_free c used rest)"

definition allocate_slot :: "config \<Rightarrow> state \<Rightarrow> instance_error + int \<times> int" where
  "allocate_slot c s =
     (case first_free c (used_displays s) [0..<nat (max_instances c)] of
        Some slot \<Rightarrow> Inr slot
      | None \<Rightarrow> Inl No_free_slots)"

text \<open>
  The \<^verbatim>\<open>try\<close> block that \<^verbatim>\<open>start_session\<close> and \<^verbatim>\<open>ensure_session\<close> share: the step
  that raised (if one did), the list \<^verbatim>\<open>processes\<close> at that moment, and the state.
  \<^verbatim>\<open>time.sleep(1)\<close> changes nothing.
\<close>

definition run_steps :: "attempt \<Rightarrow> int \<Rightarrow> state \<Rightarrow> step option \<times> pid list \<times> state" where
  "run_steps a d s =
     (case start_vnc (vnc_returncode a) d s of
        (False, s1) \<Rightarrow> (Some Start_vnc, [], s1)
      | (True, s1) \<Rightarrow>
          (case spawn_process (dosbox_spawn a) s1 of
             (None, s2) \<Rightarrow> (Some Start_dosbox, [], s2)
           | (Some dosbox_proc, s2) \<Rightarrow>
               (case spawn_process (websockify_spawn a) s2 of
                  (None, s3) \<Rightarrow> (Some Start_websockify, [dosbox_proc], s3)
                | (Some ws_proc, s3) \<Rightarrow> (None, [dosbox_proc, ws_proc], s3))))"

text \<open>The loop of the \<^verbatim>\<open>except\<close> block: terminate what still runs, and no more.\<close>

fun terminate_running :: "pid list \<Rightarrow> state \<Rightarrow> state" where
  "terminate_running [] s = s"
| "terminate_running (p # ps) s =
     terminate_running ps (if poll_is_None s p then terminate p s else s)"

definition cleanup_failed :: "pid list \<Rightarrow> int \<Rightarrow> state \<Rightarrow> state" where
  "cleanup_failed ps d s = vnc_kill d (terminate_running ps s)"

definition start_session ::
  "config \<Rightarrow> attempt \<Rightarrow> string \<Rightarrow> string \<Rightarrow> state \<Rightarrow> (instance_error + int \<times> int) \<times> state" where
  "start_session c a sid user s =
     (case map_of (instances s) sid of
        Some inst \<Rightarrow> (Inr (display inst, websocket_port inst), s)
      | None \<Rightarrow>
          (case allocate_slot c s of
             Inl e \<Rightarrow> (Inl e, s)
           | Inr (d, ws_port) \<Rightarrow>
               (case run_steps a d s of
                  (Some failed, ps, s1) \<Rightarrow>
                    (Inl (Failed_to_provision failed), cleanup_failed ps d s1)
                | (None, ps, s1) \<Rightarrow>
                    (Inr (d, ws_port),
                     s1\<lparr>instances := AList.update sid
                       \<lparr>session_id = sid, username = user, display = d,
                        websocket_port = ws_port, processes = ps\<rparr> (instances s1)\<rparr>))))"

definition ensure_session ::
  "attempt \<Rightarrow> string \<Rightarrow> string \<Rightarrow> int \<Rightarrow> int \<Rightarrow> state \<Rightarrow> (instance_error + unit) \<times> state" where
  "ensure_session a sid user d ws_port s =
     (case map_of (instances s) sid of
        Some inst \<Rightarrow> (Inr (), s)
      | None \<Rightarrow>
          (case run_steps a d s of
             (Some failed, ps, s1) \<Rightarrow>
               (Inl (Failed_to_resume failed), cleanup_failed ps d s1)
           | (None, ps, s1) \<Rightarrow>
               (Inr (),
                s1\<lparr>instances := AList.update sid
                  \<lparr>session_id = sid, username = user, display = d,
                   websocket_port = ws_port, processes = ps\<rparr> (instances s1)\<rparr>)))"

text \<open>
  The loop of \<^verbatim>\<open>stop_session\<close>: terminate, wait five seconds, kill on
  \<^verbatim>\<open>TimeoutExpired\<close> (the wait times out exactly when the process still runs).
\<close>

fun stop_processes :: "pid list \<Rightarrow> state \<Rightarrow> state" where
  "stop_processes [] s = s"
| "stop_processes (p # ps) s =
     stop_processes ps
       (if poll_is_None s p
        then (let s1 = terminate p s in if poll_is_None s1 p then kill p s1 else s1)
        else s)"

definition stop_session :: "string \<Rightarrow> state \<Rightarrow> state" where
  "stop_session sid s =
     (case map_of (instances s) sid of
        None \<Rightarrow> s
      | Some inst \<Rightarrow>
          vnc_kill (display inst)
            (stop_processes (processes inst) (s\<lparr>instances := AList.delete sid (instances s)\<rparr>)))"

text \<open>The loops over session ids in \<^verbatim>\<open>stop_all\<close>, \<^verbatim>\<open>_cleanup_expired\<close> and \<^verbatim>\<open>create_session\<close>.\<close>

fun stop_sessions :: "string list \<Rightarrow> state \<Rightarrow> state" where
  "stop_sessions [] s = s"
| "stop_sessions (sid # sids) s = stop_sessions sids (stop_session sid s)"

definition stop_all :: "state \<Rightarrow> state" where
  "stop_all s = stop_sessions (map fst (instances s)) s"

text \<open>
  A new \<^verbatim>\<open>InstanceManager\<close> starts with an empty dictionary, while
  \<^verbatim>\<open>SessionStore._initialize\<close> keeps the rows of an existing table
  (\<^verbatim>\<open>CREATE TABLE IF NOT EXISTS\<close>) and processes started with
  \<^verbatim>\<open>start_new_session=True\<close> outlive the service: a restart of the service.
\<close>

definition restart :: "state \<Rightarrow> state" where
  "restart s = s\<lparr>instances := []\<rparr>"

subsection \<open>SessionStore\<close>

text \<open>The \<^verbatim>\<open>WHERE\<close> clause of \<^verbatim>\<open>_cleanup_expired\<close>.\<close>

definition expired :: "config \<Rightarrow> int \<Rightarrow> row \<Rightarrow> bool" where
  "expired c now_ts r \<longleftrightarrow>
     (now_ts - col_last_seen r) > idle_timeout c \<or> (now_ts - col_created_at r) > absolute_timeout c"

definition cleanup_expired :: "config \<Rightarrow> int \<Rightarrow> state \<Rightarrow> state" where
  "cleanup_expired c now_ts s =
     (let stale_ids = map col_session_id (filter (expired c now_ts) (sessions s));
          s1 = s\<lparr>sessions := filter (\<lambda>r. \<not> expired c now_ts r) (sessions s)\<rparr>
      in stop_sessions stale_ids s1)"

text \<open>
  \<^verbatim>\<open>INSERT INTO sessions\<close>: \<^verbatim>\<open>session_id\<close> is the primary key, so a second row with
  the same key raises \<^verbatim>\<open>sqlite3.IntegrityError\<close> (\<open>None\<close>) and inserts nothing.
\<close>

definition insert_row :: "row \<Rightarrow> row list \<Rightarrow> row list option" where
  "insert_row r rows =
     (if col_session_id r \<in> set (map col_session_id rows) then None else Some (rows @ [r]))"

text \<open>
  \<^verbatim>\<open>create_session\<close>; the fresh \<^verbatim>\<open>uuid4\<close> and the clock are arguments. The result is
  \<^verbatim>\<open>(session_id, created_at, display, websocket_port)\<close>.
\<close>

definition create_session ::
  "config \<Rightarrow> attempt \<Rightarrow> string \<Rightarrow> int \<Rightarrow> string \<Rightarrow> state
    \<Rightarrow> (error + string \<times> int \<times> int \<times> int) \<times> state" where
  "create_session c a sid now_ts user s =
     (let old_sessions = map col_session_id (filter (\<lambda>r. col_username r = user) (sessions s));
          s1 = s\<lparr>sessions := filter (\<lambda>r. col_username r \<noteq> user) (sessions s)\<rparr>;
          s2 = stop_sessions old_sessions s1
      in case start_session c a sid user s2 of
           (Inl e, s3) \<Rightarrow> (Inl (InstanceError e), s3)
         | (Inr (d, ws_port), s3) \<Rightarrow>
             (case insert_row
                     \<lparr>col_session_id = sid, col_username = user, col_display = Some d,
                      col_websocket_port = Some ws_port, col_created_at = now_ts,
                      col_last_seen = now_ts\<rparr> (sessions s3) of
                None \<Rightarrow> (Inl IntegrityError, s3)
              | Some rows \<Rightarrow> (Inr (sid, now_ts, d, ws_port), s3\<lparr>sessions := rows\<rparr>)))"

text \<open>\<^verbatim>\<open>UPDATE sessions SET last_seen = ? WHERE session_id = ?\<close>.\<close>

definition update_last_seen :: "int \<Rightarrow> string \<Rightarrow> row list \<Rightarrow> row list" where
  "update_last_seen now_ts sid rows =
     map (\<lambda>r. if col_session_id r = sid then r\<lparr>col_last_seen := now_ts\<rparr> else r) rows"

text \<open>
  \<^verbatim>\<open>validate\<close>; \<open>Inr None\<close> is the \<^verbatim>\<open>None\<close> it returns, and the dictionary it returns is
  \<^verbatim>\<open>(username, created_at, last_seen, display, websocket_port)\<close>. A key that is
  \<^verbatim>\<open>None\<close> takes the same first branch as the empty string.
\<close>

definition validate ::
  "config \<Rightarrow> attempt \<Rightarrow> int \<Rightarrow> string \<Rightarrow> state
    \<Rightarrow> (instance_error + (string \<times> int \<times> int \<times> int \<times> int) option) \<times> state" where
  "validate c a now_ts sid s =
     (if sid = [] then (Inr None, s)
      else
        (let s1 = cleanup_expired c now_ts s
         in case find (\<lambda>r. col_session_id r = sid) (sessions s1) of
              None \<Rightarrow> (Inr None, s1)
            | Some r \<Rightarrow>
                (let s2 = s1\<lparr>sessions := update_last_seen now_ts sid (sessions s1)\<rparr>
                 in case (col_display r, col_websocket_port r) of
                      (Some d, Some ws_port) \<Rightarrow>
                        (case ensure_session a sid (col_username r) d ws_port s2 of
                           (Inl e, s3) \<Rightarrow> (Inl e, s3)
                         | (Inr u, s3) \<Rightarrow>
                             (Inr (Some (col_username r, col_created_at r, col_last_seen r,
                                d, ws_port)), s3))
                    | _ \<Rightarrow> (Inr None, s2))))"

definition delete :: "string \<Rightarrow> state \<Rightarrow> state" where
  "delete sid s =
     (if sid = [] then s
      else stop_session sid (s\<lparr>sessions := filter (\<lambda>r. col_session_id r \<noteq> sid) (sessions s)\<rparr>))"

subsection \<open>Example configuration and states\<close>

text \<open>The defaults of \<^verbatim>\<open>main.py\<close>.\<close>

definition default_config :: config where
  "default_config =
     \<lparr>base_display = 11, max_instances = 5, base_websocket_port = 7700,
      idle_timeout = 900, absolute_timeout = 28800\<rparr>"

text \<open>The store and the manager right after start-up on an empty database.\<close>

definition initial :: state where
  "initial = \<lparr>instances = [], sessions = [], procs = Map.empty, next_pid = 0, vnc_up = {}\<rparr>"

text \<open>An attempt in which every step succeeds and the processes obey SIGTERM.\<close>

definition all_ok :: attempt where
  "all_ok = \<lparr>vnc_returncode = 0, dosbox_spawn = Spawns True, websockify_spawn = Spawns True\<rparr>"

text \<open>The defaults with a single slot.\<close>

definition one_slot :: config where
  "one_slot = default_config\<lparr>max_instances := 1\<rparr>"

text \<open>The state after one successful \<^verbatim>\<open>start_session\<close> on the initial state.\<close>

definition live_A :: state where
  "live_A = snd (start_session default_config all_ok ''A'' ''alice'' initial)"

text \<open>
  Every handle held by a live instance is a process that was spawned: an invariant of
  the states the methods produce from \<open>initial\<close>.
\<close>

definition handles_spawned :: "state \<Rightarrow> bool" where
  "handles_spawned s \<longleftrightarrow>
     (\<forall>(k, i) \<in> set (instances s). \<forall>p \<in> set (processes i). p < next_pid s)"

text \<open>An attempt in which the VNC server exits with a non-zero return code.\<close>

definition vnc_fails :: attempt where
  "vnc_fails = \<lparr>vnc_returncode = 1, dosbox_spawn = Spawns True, websockify_spawn = Spawns True\<rparr>"

text \<open>An attempt in which DOSBox starts as a process that does not exit on SIGTERM and the
  \<^verbatim>\<open>Popen\<close> of websockify raises.\<close>

definition relay_fails :: attempt where
  "relay_fails = \<lparr>vnc_returncode = 0, dosbox_spawn = Spawns False, websockify_spawn = SpawnFails\<rparr>"

text \<open>A table with one row whose display and port are \<^verbatim>\<open>NULL\<close>, as
  \<^verbatim>\<open>ALTER TABLE sessions ADD COLUMN\<close> leaves the rows of an older schema.\<close>

definition legacy_store :: state where
  "legacy_store = initial\<lparr>sessions :=
     [\<lparr>col_session_id = ''L'', col_username = ''lea'', col_display = None,
       col_websocket_port = None, col_created_at = 0, col_last_seen = 0\<rparr>]\<rparr>"

text \<open>The state after alice logs in on the initial state.\<close>

definition store_A :: state where
  "store_A = snd (create_session default_config all_ok ''A'' 0 ''alice'' initial)"

text \<open>Then bob logs in.\<close>

definition two_sessions :: state where
  "two_sessions = snd (create_session default_config all_ok ''B'' 1 ''bob'' store_A)"

text \<open>Then the service restarts.\<close>

definition restarted :: state where
  "restarted = restart two_sessions"

text \<open>
  No two entries of the dictionary hold the same display (the keys of a dictionary being
  distinct: no two live sessions share a slot).
\<close>

definition slots_exclusive :: "state \<Rightarrow> bool" where
  "slots_exclusive s \<longleftrightarrow> distinct (used_displays s)"

text \<open>The offsets that \<^verbatim>\<open>_allocate_slot\<close> would still hand out.\<close>

definition free_slots :: "config \<Rightarrow> state \<Rightarrow> nat list" where
  "free_slots c s =
     filter (\<lambda>offset. base_display c + int offset \<notin> set (used_displays s))
       [0..<nat (max_instances c)]"

section \<open>Slot allocation\<close>

lemma first_free_None:
  "first_free c used offs = None \<longleftrightarrow> (\<forall>k \<in> set offs. base_display c + int k \<in> set used)"
  by (induction offs) auto

lemma first_free_upt:
  "first_free c used [m..<n] = Some slot \<Longrightarrow>
   \<exists>k. m \<le> k \<and> k < n \<and> base_display c + int k \<notin> set used \<and>
       (\<forall>j. m \<le> j \<and> j < k \<longrightarrow> base_display c + int j \<in> set used) \<and>
       slot = (base_display c + int k, base_websocket_port c + int k)"
proof (induction "n - m" arbitrary: m)
  case 0
  then show ?case by simp
next
  case (Suc d)
  then have lt: "m < n" by simp
  then have unfold: "[m..<n] = m # [Suc m..<n]" by (simp add: upt_conv_Cons)
  show ?case
  proof (cases "base_display c + int m \<in> set used")
    case False
    with Suc.prems unfold lt show ?thesis by auto
  next
    case True
    with Suc.prems unfold have "first_free c used [Suc m..<n] = Some slot" by simp
    moreover from Suc.hyps(2) have "d = n - Suc m" by simp
    ultimately obtain k where k: "Suc m \<le> k" "k < n" "base_display c + int k \<notin> set used"
      "\<forall>j. Suc m \<le> j \<and> j < k \<longrightarrow> base_display c + int j \<in> set used"
      "slot = (base_display c + int k, base_websocket_port c + int k)"
      using Suc.hyps(1) by blast
    have "\<forall>j. m \<le> j \<and> j < k \<longrightarrow> base_display c + int j \<in> set used"
    proof (intro allI impI)
      fix j assume "m \<le> j \<and> j < k"
      then show "base_display c + int j \<in> set used"
        using True k(4) by (cases "j = m") auto
    qed
    with k show ?thesis by (intro exI[of _ k]) auto
  qed
qed

text \<open>
  C6. \<^verbatim>\<open>_allocate_slot\<close>: when some offset below \<^verbatim>\<open>max_instances\<close> has its display
  \<open>base_display + offset\<close> not among the displays of the live instances, the result is
  the slot of the lowest such offset \<open>k\<close>, with display \<open>base_display + k\<close> and port
  \<open>base_websocket_port + k\<close>; when every offset is held, it raises
  "No free session slots available".
\<close>

theorem allocate_slot_lowest_unused:
  "((\<exists>i < nat (max_instances c). base_display c + int i \<notin> set (used_displays s)) \<longrightarrow>
      (\<exists>k < nat (max_instances c).
          base_display c + int k \<notin> set (used_displays s) \<and>
          (\<forall>j < k. base_display c + int j \<in> set (used_displays s)) \<and>
          allocate_slot c s = Inr (base_display c + int k, base_websocket_port c + int k))) \<and>
   ((\<forall>i < nat (max_instances c). base_display c + int i \<in> set (used_displays s)) \<longrightarrow>
      allocate_slot c s = Inl No_free_slots)"
proof (intro conjI impI)
  assume "\<exists>i < nat (max_instances c). base_display c + int i \<notin> set (used_displays s)"
  then have "first_free c (used_displays s) [0..<nat (max_instances c)] \<noteq> None"
    by (auto simp: first_free_None)
  then obtain slot where slot: "first_free c (used_displays s) [0..<nat (max_instances c)] = Some slot"
    by blast
  from first_free_upt[OF slot] obtain k where
    "k < nat (max_instances c)" "base_display c + int k \<notin> set (used_displays s)"
    "\<forall>j < k. base_display c + int j \<in> set (used_displays s)"
    "slot = (base_display c + int k, base_websocket_port c + int k)"
    by auto
  with slot show "\<exists>k < nat (max_instances c).
          base_display c + int k \<notin> set (used_displays s) \<and>
          (\<forall>j < k. base_display c + int j \<in> set (used_displays s)) \<and>
          allocate_slot c s = Inr (base_display c + int k, base_websocket_port c + int k)"
    by (auto simp: allocate_slot_def)
next
  assume "\<forall>i < nat (max_instances c). base_display c + int i \<in> set (used_displays s)"
  then have "first_free c (used_displays s) [0..<nat (max_instances c)] = None"
    by (auto simp: first_free_None)
  then show "allocate_slot c s = Inl No_free_slots"
    by (simp add: allocate_slot_def)
qed

lemma used_displays_live_A: "used_displays live_A = [11]"
  by code_simp

theorem allocate_slot_lowest_unused_witness:
  "(\<exists>i < nat (max_instances default_config).
      base_display default_config + int i \<notin> set (used_displays live_A)) \<and>
   allocate_slot default_config live_A = Inr (12, 7701) \<and>
   base_display one_slot + int 0 \<in> set (used_displays live_A) \<and>
   allocate_slot one_slot live_A = Inl No_free_slots"
proof -
  have free: "\<exists>i < nat (max_instances default_config).
      base_display default_config + int i \<notin> set (used_displays live_A)"
    by (rule exI[of _ 1]) (simp add: used_displays_live_A default_config_def)
  from allocate_slot_lowest_unused[of default_config live_A] free
  obtain k where k: "k < nat (max_instances default_config)"
      "base_display default_config + int k \<notin> set (used_displays live_A)"
      "\<forall>j < k. base_display default_config + int j \<in> set (used_displays live_A)"
      "allocate_slot default_config live_A =
         Inr (base_display default_config + int k, base_websocket_port default_config + int k)"
    by blast
  have "k = 1"
  proof -
    from k(2) have "k \<noteq> 0" by (auto simp: used_displays_live_A default_config_def intro: ccontr)
    moreover have "\<not> 1 < k"
    proof
      assume "1 < k"
      with k(3) have "base_display default_config + int 1 \<in> set (used_displays live_A)" by blast
      then show False by (simp add: used_displays_live_A default_config_def)
    qed
    ultimately show ?thesis by arith
  qed
  with k(4) have first: "allocate_slot default_config live_A = Inr (12, 7701)"
    by (simp add: default_config_def)
  have held: "base_display one_slot + int 0 \<in> set (used_displays live_A)"
    by (simp add: used_displays_live_A one_slot_def default_config_def)
  then have "\<forall>i < nat (max_instances one_slot).
      base_display one_slot + int i \<in> set (used_displays live_A)"
    by (simp add: one_slot_def default_config_def)
  with allocate_slot_lowest_unused[of one_slot live_A]
  have "allocate_slot one_slot live_A = Inl No_free_slots" by blast
  with free first held show ?thesis by blast
qed

section \<open>What the methods leave unchanged\<close>

lemma terminate_frame [simp]:
  "instances (terminate p s) = instances s" "sessions (terminate p s) = sessions s"
  "next_pid (terminate p s) = next_pid s" "vnc_up (terminate p s) = vnc_up s"
  by (auto simp: terminate_def split: option.splits pstatus.splits bool.splits)

lemma kill_frame [simp]:
  "instances (kill p s) = instances s" "sessions (kill p s) = sessions s"
  "next_pid (kill p s) = next_pid s" "vnc_up (kill p s) = vnc_up s"
  by (auto simp: kill_def split: option.splits pstatus.splits)

lemma vnc_kill_frame [simp]:
  "instances (vnc_kill d s) = instances s" "sessions (vnc_kill d s) = sessions s"
  "next_pid (vnc_kill d s) = next_pid s" "procs (vnc_kill d s) = procs s"
  "vnc_up (vnc_kill d s) = vnc_up s - {d}"
  by (simp_all add: vnc_kill_def)

lemma terminate_running_frame [simp]:
  "instances (terminate_running ps s) = instances s"
  "sessions (terminate_running ps s) = sessions s"
  "next_pid (terminate_running ps s) = next_pid s"
  "vnc_up (terminate_running ps s) = vnc_up s"
  by (induction ps arbitrary: s) auto

lemma stop_processes_frame [simp]:
  "instances (stop_processes ps s) = instances s"
  "sessions (stop_processes ps s) = sessions s"
  "next_pid (stop_processes ps s) = next_pid s"
  "vnc_up (stop_processes ps s) = vnc_up s"
  by (induction ps arbitrary: s) (auto simp: Let_def)

lemma cleanup_failed_frame [simp]:
  "instances (cleanup_failed ps d s) = instances s"
  "sessions (cleanup_failed ps d s) = sessions s"
  "next_pid (cleanup_failed ps d s) = next_pid s"
  "vnc_up (cleanup_failed ps d s) = vnc_up s - {d}"
  by (simp_all add: cleanup_failed_def)

lemma run_steps_frame:
  assumes "run_steps a d s = (r, ps, s1)"
  shows "instances s1 = instances s" and "sessions s1 = sessions s"
    and "next_pid s \<le> next_pid s1"
  using assms
  by (auto simp: run_steps_def start_vnc_def spawn_process_def Let_def vnc_kill_def
      split: if_splits spawn.splits)

lemma stop_session_sessions [simp]: "sessions (stop_session sid s) = sessions s"
  by (simp add: stop_session_def split: option.splits)

lemma stop_session_next_pid [simp]: "next_pid (stop_session sid s) = next_pid s"
  by (simp add: stop_session_def split: option.splits)

lemma stop_session_instances [simp]:
  "instances (stop_session sid s) = AList.delete sid (instances s)"
  by (simp add: stop_session_def delete_notin_dom map_of_eq_None_iff AList.delete_id dom_map_of_conv_image_fst
      split: option.splits)

lemma stop_sessions_sessions [simp]: "sessions (stop_sessions sids s) = sessions s"
  by (induction sids arbitrary: s) auto

lemma stop_sessions_next_pid [simp]: "next_pid (stop_sessions sids s) = next_pid s"
  by (induction sids arbitrary: s) auto


lemma start_session_sessions: "sessions (snd (start_session c a sid user s)) = sessions s"
  by (auto simp: start_session_def split: option.splits sum.splits prod.splits dest: run_steps_frame)

lemma ensure_session_sessions: "sessions (snd (ensure_session a sid user d p s)) = sessions s"
  by (auto simp: ensure_session_def split: option.splits sum.splits prod.splits dest: run_steps_frame)

lemma start_session_fails_instances:
  "start_session c a sid user s = (Inl e, s') \<Longrightarrow> instances s' = instances s"
  by (auto simp: start_session_def split: option.splits sum.splits prod.splits dest: run_steps_frame)

lemma ensure_session_fails_instances:
  "ensure_session a sid user d p s = (Inl e, s') \<Longrightarrow> instances s' = instances s"
  by (auto simp: ensure_session_def split: option.splits sum.splits prod.splits dest: run_steps_frame)

lemma map_of_stop_session:
  "map_of (instances (stop_session sid s)) k = (if k = sid then None else map_of (instances s) k)"
  by (simp add: delete_conv')

lemma map_of_stop_sessions:
  "map_of (instances (stop_sessions sids s)) k =
     (if k \<in> set sids then None else map_of (instances s) k)"
  by (induction sids arbitrary: s) (auto simp: delete_conv')

lemma create_session_fails_sessions:
  assumes "create_session c a sid now_ts user s = (Inl e, s')"
  shows "sessions s' = filter (\<lambda>r. col_username r \<noteq> user) (sessions s)"
proof -
  define s2 where "s2 = stop_sessions (map col_session_id (filter (\<lambda>r. col_username r = user) (sessions s)))
     (s\<lparr>sessions := filter (\<lambda>r. col_username r \<noteq> user) (sessions s)\<rparr>)"
  have s2: "sessions s2 = filter (\<lambda>r. col_username r \<noteq> user) (sessions s)"
    by (simp add: s2_def)
  have "sessions (snd (start_session c a sid user s2)) = sessions s2"
    by (rule start_session_sessions)
  moreover from assms have "s' = snd (start_session c a sid user s2)"
    by (auto simp: create_session_def Let_def s2_def split: prod.splits sum.splits option.splits)
  ultimately show ?thesis using s2 by simp
qed

lemma create_session_unfold:
  "create_session c a sid now_ts user s =
     (case start_session c a sid user
        (stop_sessions (map col_session_id (filter (\<lambda>r. col_username r = user) (sessions s)))
          (s\<lparr>sessions := filter (\<lambda>r. col_username r \<noteq> user) (sessions s)\<rparr>)) of
        (Inl e, s3) \<Rightarrow> (Inl (InstanceError e), s3)
      | (Inr (d, ws_port), s3) \<Rightarrow>
          (case insert_row
                  \<lparr>col_session_id = sid, col_username = user, col_display = Some d,
                   col_websocket_port = Some ws_port, col_created_at = now_ts,
                   col_last_seen = now_ts\<rparr> (sessions s3) of
             None \<Rightarrow> (Inl IntegrityError, s3)
           | Some rows \<Rightarrow> (Inr (sid, now_ts, d, ws_port), s3\<lparr>sessions := rows\<rparr>)))"
  by (simp add: create_session_def Let_def)

lemma update_fresh: "map_of al k = None \<Longrightarrow> AList.update k v al = al @ [(k, v)]"
  by (induction al) (auto split: if_splits)

lemma terminate_not_running: "\<not> poll_is_None s p \<Longrightarrow> \<not> poll_is_None (terminate q s) p"
  by (auto simp: poll_is_None_def terminate_def split: option.splits pstatus.splits bool.splits if_splits)

lemma kill_not_running: "\<not> poll_is_None s p \<Longrightarrow> \<not> poll_is_None (kill q s) p"
  by (auto simp: poll_is_None_def kill_def split: option.splits pstatus.splits if_splits)

lemma kill_stops: "\<not> poll_is_None (kill p s) p"
  by (auto simp: poll_is_None_def kill_def split: option.splits pstatus.splits)

lemma vnc_kill_poll [simp]: "poll_is_None (vnc_kill d s) p = poll_is_None s p"
  by (simp add: poll_is_None_def)

lemma poll_instances_update [simp]: "poll_is_None (s\<lparr>instances := x\<rparr>) p = poll_is_None s p"
  by (simp add: poll_is_None_def)

lemma poll_sessions_update [simp]: "poll_is_None (s\<lparr>sessions := x\<rparr>) p = poll_is_None s p"
  by (simp add: poll_is_None_def)

lemma stop_processes_not_running:
  "\<not> poll_is_None s p \<Longrightarrow> \<not> poll_is_None (stop_processes ps s) p"
  by (induction ps arbitrary: s) (auto simp: Let_def terminate_not_running kill_not_running)

lemma stop_processes_stops: "p \<in> set ps \<Longrightarrow> \<not> poll_is_None (stop_processes ps s) p"
proof (induction ps arbitrary: s)
  case Nil
  then show ?case by simp
next
  case (Cons q ps)
  show ?case
  proof (cases "p = q")
    case True
    have "\<not> poll_is_None (if poll_is_None s q
        then (let s1 = terminate q s in if poll_is_None s1 q then kill q s1 else s1) else s) q"
      by (simp add: Let_def kill_stops)
    then show ?thesis using True by (simp add: stop_processes_not_running)
  next
    case False
    with Cons show ?thesis by simp
  qed
qed

lemma stop_session_not_running:
  "\<not> poll_is_None s p \<Longrightarrow> \<not> poll_is_None (stop_session sid s) p"
  by (simp add: stop_session_def stop_processes_not_running split: option.splits)

lemma stop_session_stops:
  "map_of (instances s) sid = Some i \<Longrightarrow> p \<in> set (processes i) \<Longrightarrow>
   \<not> poll_is_None (stop_session sid s) p"
  by (simp add: stop_session_def stop_processes_stops)

lemma stop_sessions_not_running:
  "\<not> poll_is_None s p \<Longrightarrow> \<not> poll_is_None (stop_sessions sids s) p"
  by (induction sids arbitrary: s) (auto simp: stop_session_not_running)

lemma stop_sessions_stops:
  "map_of (instances s) k = Some i \<Longrightarrow> k \<in> set sids \<Longrightarrow> p \<in> set (processes i) \<Longrightarrow>
   \<not> poll_is_None (stop_sessions sids s) p"
proof (induction sids arbitrary: s)
  case Nil
  then show ?case by simp
next
  case (Cons sid sids)
  show ?case
  proof (cases "sid = k")
    case True
    with Cons.prems have "\<not> poll_is_None (stop_session sid s) p"
      by (simp add: stop_session_stops)
    then show ?thesis by (simp add: stop_sessions_not_running)
  next
    case False
    with Cons.prems have "map_of (instances (stop_session sid s)) k = Some i" "k \<in> set sids"
      by (auto simp: delete_conv')
    with Cons.IH Cons.prems(3) show ?thesis by simp
  qed
qed

lemma terminate_running_not_running:
  "\<not> poll_is_None s p \<Longrightarrow> \<not> poll_is_None (terminate_running ps s) p"
  by (induction ps arbitrary: s) (auto simp: terminate_not_running)

lemma run_steps_old_procs:
  "run_steps a d s = (r, ps, s1) \<Longrightarrow> p < next_pid s \<Longrightarrow> procs s1 p = procs s p"
  by (auto simp: run_steps_def start_vnc_def spawn_process_def Let_def vnc_kill_def
      split: if_splits spawn.splits)


lemma start_session_old_not_running:
  assumes "p < next_pid s" and "\<not> poll_is_None s p"
  shows "\<not> poll_is_None (snd (start_session c a sid user s)) p"
proof -
  have *: "\<not> poll_is_None s1 p" if "run_steps a d s = (r, ps, s1)" for d r ps s1
    using run_steps_old_procs[OF that assms(1)] assms(2) by (simp add: poll_is_None_def)
  show ?thesis
    by (auto simp: start_session_def cleanup_failed_def assms(2)
        split: option.splits sum.splits prod.splits
        dest!: * dest: terminate_running_not_running)
qed



lemma handles_spawned_sessions_update [simp]:
  "handles_spawned (s\<lparr>sessions := x\<rparr>) = handles_spawned s"
  by (simp add: handles_spawned_def)


section \<open>Failures of create_session and absent sessions\<close>

lemma start_session_error_kind:
  "start_session c a sid user s = (Inl e, s') \<Longrightarrow>
   e = No_free_slots \<or> (\<exists>st. e = Failed_to_provision st)"
  by (auto simp: start_session_def allocate_slot_def
      split: option.splits sum.splits prod.splits)

text \<open>
  C7. When the \<^verbatim>\<open>start_session\<close> call inside \<^verbatim>\<open>create_session\<close> raises (it runs after
  the owner's old rows are deleted and their instances stopped), \<^verbatim>\<open>create_session\<close> raises
  the same \<^verbatim>\<open>InstanceError\<close>, which is the no-free-slot or the failed-to-provision one, and
  the \<^verbatim>\<open>INSERT\<close> is never reached: the table holds exactly the rows of the other owners,
  all of them rows it held before.
\<close>

theorem create_session_failure_persists_nothing:
  assumes "start_session c a sid user
             (stop_sessions (map col_session_id (filter (\<lambda>r. col_username r = user) (sessions s)))
               (s\<lparr>sessions := filter (\<lambda>r. col_username r \<noteq> user) (sessions s)\<rparr>)) = (Inl e, s')"
  shows "create_session c a sid now_ts user s = (Inl (InstanceError e), s') \<and>
         (e = No_free_slots \<or> (\<exists>st. e = Failed_to_provision st)) \<and>
         sessions s' = filter (\<lambda>r. col_username r \<noteq> user) (sessions s) \<and>
         set (sessions s') \<subseteq> set (sessions s)"
proof -
  have res: "create_session c a sid now_ts user s = (Inl (InstanceError e), s')"
    using assms by (simp add: create_session_unfold)
  from create_session_fails_sessions[OF res]
  have "sessions s' = filter (\<lambda>r. col_username r \<noteq> user) (sessions s)" .
  with res start_session_error_kind[OF assms] show ?thesis by auto
qed

lemma sessions_store_A:
  "sessions store_A =
     [\<lparr>col_session_id = ''A'', col_username = ''alice'', col_display = Some 11,
       col_websocket_port = Some 7700, col_created_at = 0, col_last_seen = 0\<rparr>]"
  by code_simp

theorem create_session_failure_persists_nothing_witness:
  "fst (create_session default_config vnc_fails ''B'' 5 ''bob'' store_A) =
     Inl (InstanceError (Failed_to_provision Start_vnc)) \<and>
   sessions (snd (create_session default_config vnc_fails ''B'' 5 ''bob'' store_A)) =
     sessions store_A \<and>
   map col_session_id (sessions store_A) = [''A'']"
proof -
  define s2 where "s2 = stop_sessions
      (map col_session_id (filter (\<lambda>r. col_username r = ''bob'') (sessions store_A)))
      (store_A\<lparr>sessions := filter (\<lambda>r. col_username r \<noteq> ''bob'') (sessions store_A)\<rparr>)"
  have "fst (start_session default_config vnc_fails ''B'' ''bob'' s2) =
      Inl (Failed_to_provision Start_vnc)"
    unfolding s2_def by code_simp
  then have h: "start_session default_config vnc_fails ''B'' ''bob'' s2 =
      (Inl (Failed_to_provision Start_vnc),
       snd (start_session default_config vnc_fails ''B'' ''bob'' s2))"
    by (simp add: prod_eq_iff)
  from create_session_failure_persists_nothing[OF h[unfolded s2_def], of 5]
  show ?thesis by (simp add: sessions_store_A)
qed

lemma sessions_cleanup_expired [simp]:
  "sessions (cleanup_expired c now_ts s) = filter (\<lambda>r. \<not> expired c now_ts r) (sessions s)"
  by (simp add: cleanup_expired_def Let_def)

lemma validate_empty: "validate c a now_ts [] s = (Inr None, s)"
  by (simp add: validate_def)

lemma validate_slot_unset:
  assumes "\<forall>r \<in> set (sessions s). col_session_id r = sid \<and> \<not> expired c now_ts r \<longrightarrow>
             col_display r = None \<or> col_websocket_port r = None"
  shows "fst (validate c a now_ts sid s) = Inr None"
proof (cases "sid = []")
  case True
  then show ?thesis by (simp add: validate_empty)
next
  case False
  show ?thesis
  proof (cases "find (\<lambda>r. col_session_id r = sid) (sessions (cleanup_expired c now_ts s))")
    case None
    with False show ?thesis by (simp add: validate_def Let_def)
  next
    case (Some r)
    then have "r \<in> set (sessions s)" "col_session_id r = sid" "\<not> expired c now_ts r"
      by (auto simp: find_Some_iff in_set_conv_nth dest: nth_mem)
    with assms have "col_display r = None \<or> col_websocket_port r = None" by auto
    with False Some show ?thesis
      by (auto simp: validate_def Let_def split: option.splits)
  qed
qed

text \<open>
  C9. \<^verbatim>\<open>validate\<close> returns \<^verbatim>\<open>None\<close> for the empty key (changing nothing); for a key
  that no row carries or whose rows are all expired at this call (they are swept first);
  and for a key whose unexpired row has a \<^verbatim>\<open>NULL\<close> display or port.
\<close>

theorem validate_absent:
  "validate c a now_ts [] s = (Inr None, s) \<and>
   ((\<forall>r \<in> set (sessions s). col_session_id r = sid \<longrightarrow> expired c now_ts r) \<longrightarrow>
      fst (validate c a now_ts sid s) = Inr None) \<and>
   ((\<forall>r \<in> set (sessions s). col_session_id r = sid \<and> \<not> expired c now_ts r \<longrightarrow>
        col_display r = None \<or> col_websocket_port r = None) \<longrightarrow>
      fst (validate c a now_ts sid s) = Inr None)"
proof (intro conjI impI)
  show "validate c a now_ts [] s = (Inr None, s)" by (rule validate_empty)
next
  assume "\<forall>r \<in> set (sessions s). col_session_id r = sid \<longrightarrow> expired c now_ts r"
  then show "fst (validate c a now_ts sid s) = Inr None"
    by (intro validate_slot_unset) blast
next
  assume "\<forall>r \<in> set (sessions s). col_session_id r = sid \<and> \<not> expired c now_ts r \<longrightarrow>
        col_display r = None \<or> col_websocket_port r = None"
  then show "fst (validate c a now_ts sid s) = Inr None"
    by (rule validate_slot_unset)
qed

theorem validate_absent_witness:
  "''Z'' \<notin> set (map col_session_id (sessions store_A)) \<and>
   fst (validate default_config all_ok 10 ''Z'' store_A) = Inr None \<and>
   map col_session_id (filter (expired default_config 1000) (sessions store_A)) = [''A''] \<and>
   fst (validate default_config all_ok 1000 ''A'' store_A) = Inr None \<and>
   map (\<lambda>r. (col_session_id r, col_display r)) (sessions legacy_store) = [(''L'', None)] \<and>
   fst (validate default_config all_ok 10 ''L'' legacy_store) = Inr None"
proof -
  have unknown: "\<forall>r \<in> set (sessions store_A). col_session_id r = ''Z'' \<longrightarrow>
      expired default_config 10 r"
    by (simp add: sessions_store_A)
  have swept: "\<forall>r \<in> set (sessions store_A). col_session_id r = ''A'' \<longrightarrow>
      expired default_config 1000 r"
    by (simp add: sessions_store_A expired_def default_config_def)
  have unset: "\<forall>r \<in> set (sessions legacy_store).
      col_session_id r = ''L'' \<and> \<not> expired default_config 10 r \<longrightarrow>
      col_display r = None \<or> col_websocket_port r = None"
    by (simp add: legacy_store_def)
  from validate_absent[of default_config all_ok 10 store_A "''Z''"] unknown
  have 1: "fst (validate default_config all_ok 10 ''Z'' store_A) = Inr None" by blast
  from validate_absent[of default_config all_ok 1000 store_A "''A''"] swept
  have 2: "fst (validate default_config all_ok 1000 ''A'' store_A) = Inr None" by blast
  from validate_absent[of default_config all_ok 10 legacy_store "''L''"] unset
  have 3: "fst (validate default_config all_ok 10 ''L'' legacy_store) = Inr None" by blast
  show ?thesis using 1 2 3
    by (simp add: sessions_store_A legacy_store_def expired_def default_config_def)
qed

section \<open>Resuming a session\<close>

lemma map_of_cleanup_expired:
  "map_of (instances (cleanup_expired c now_ts s)) k =
     (if k \<in> col_session_id ` set (filter (expired c now_ts) (sessions s)) then None
      else map_of (instances s) k)"
  by (simp add: cleanup_expired_def Let_def map_of_stop_sessions)

lemma find_row_Some:
  "find (\<lambda>r. col_session_id r = sid) rows = Some r \<Longrightarrow> r \<in> set rows \<and> col_session_id r = sid"
  by (auto simp: find_Some_iff)

lemma ensure_session_live:
  "map_of (instances s) sid = Some i \<Longrightarrow> ensure_session a sid user d p s = (Inr (), s)"
  by (simp add: ensure_session_def)

lemma ensure_session_success:
  assumes "ensure_session a sid user d p s = (Inr u, s')" and "map_of (instances s) sid = None"
  shows "\<exists>ps. map_of (instances s') sid =
           Some \<lparr>session_id = sid, username = user, display = d, websocket_port = p,
                 processes = ps\<rparr>"
  using assms
  by (auto simp: ensure_session_def update_conv' split: prod.splits option.splits)

lemma ensure_session_error_kind:
  "ensure_session a sid user d p s = (Inl e, s') \<Longrightarrow> \<exists>st. e = Failed_to_resume st"
  by (auto simp: ensure_session_def split: option.splits prod.splits)

lemma validate_succeeds:
  assumes "validate c a now_ts sid s = (Inr (Some res), s')"
  shows "\<exists>r d p. sid \<noteq> [] \<and>
    find (\<lambda>r. col_session_id r = sid) (filter (\<lambda>r. \<not> expired c now_ts r) (sessions s)) = Some r \<and>
    col_display r = Some d \<and> col_websocket_port r = Some p \<and>
    ensure_session a sid (col_username r) d p
       ((cleanup_expired c now_ts s)\<lparr>sessions := update_last_seen now_ts sid
           (filter (\<lambda>r. \<not> expired c now_ts r) (sessions s))\<rparr>) = (Inr (), s') \<and>
    res = (col_username r, col_created_at r, col_last_seen r, d, p)"
  using assms
  by (auto simp: validate_def Let_def split: if_splits option.splits prod.splits sum.splits)

lemma validate_raises:
  assumes "validate c a now_ts sid s = (Inl e, s')"
  shows "\<exists>r d p. sid \<noteq> [] \<and>
    find (\<lambda>r. col_session_id r = sid) (filter (\<lambda>r. \<not> expired c now_ts r) (sessions s)) = Some r \<and>
    col_display r = Some d \<and> col_websocket_port r = Some p \<and>
    ensure_session a sid (col_username r) d p
       ((cleanup_expired c now_ts s)\<lparr>sessions := update_last_seen now_ts sid
           (filter (\<lambda>r. \<not> expired c now_ts r) (sessions s))\<rparr>) = (Inl e, s')"
  using assms
  by (auto simp: validate_def Let_def split: if_splits option.splits prod.splits sum.splits)

lemma keys_two_sessions: "map fst (instances two_sessions) = [''A'', ''B'']"
  by code_simp

section \<open>Failure of a resume\<close>

lemma run_steps_all_succeed:
  assumes "vnc_returncode a = 0" "dosbox_spawn a \<noteq> SpawnFails" "websockify_spawn a \<noteq> SpawnFails"
  shows "\<exists>ps s1. run_steps a d s = (None, ps, s1)"
  using assms
  by (cases "dosbox_spawn a"; cases "websockify_spawn a")
     (auto simp: run_steps_def start_vnc_def spawn_process_def Let_def)

lemma ensure_session_succeeds:
  assumes "vnc_returncode a = 0" "dosbox_spawn a \<noteq> SpawnFails" "websockify_spawn a \<noteq> SpawnFails"
    and "map_of (instances s) sid = None"
  shows "\<exists>s' ps. ensure_session a sid user d p s = (Inr (), s') \<and>
           map_of (instances s') sid =
             Some \<lparr>session_id = sid, username = user, display = d, websocket_port = p,
                   processes = ps\<rparr>"
proof -
  from run_steps_all_succeed[OF assms(1-3)] obtain ps s1 where
    "run_steps a d s = (None, ps, s1)" by blast
  with assms(4) show ?thesis
    by (auto simp: ensure_session_def update_conv')
qed

lemma ensure_session_rollback:
  assumes "ensure_session a sid user d p s = (Inl e, s')"
  shows "map_of (instances s) sid = None \<and>
         (\<exists>st ps s1. e = Failed_to_resume st \<and> run_steps a d s = (Some st, ps, s1) \<and>
             s' = cleanup_failed ps d s1)"
  using assms by (auto simp: ensure_session_def split: option.splits prod.splits)

text \<open>
  The \<^verbatim>\<open>except\<close> blocks of \<^verbatim>\<open>ensure_session\<close> and \<^verbatim>\<open>start_session\<close> are the same code: both
  leave the state \<open>cleanup_failed\<close> gives after the steps that ran.
\<close>

lemma start_session_rollback:
  assumes "start_session c a sid user s = (Inl (Failed_to_provision st), s')"
  shows "\<exists>d p ps s1. allocate_slot c s = Inr (d, p) \<and> run_steps a d s = (Some st, ps, s1) \<and>
             s' = cleanup_failed ps d s1"
  using assms
  by (auto simp: start_session_def allocate_slot_def split: option.splits prod.splits sum.splits)

lemma find_distinct_key:
  "distinct (map col_session_id rows) \<Longrightarrow> r \<in> set rows \<Longrightarrow>
   find (\<lambda>x. col_session_id x = col_session_id r) rows = Some r"
  by (induction rows) (auto simp: image_iff)

lemma update_last_seen_keys [simp]:
  "map col_session_id (update_last_seen now_ts sid rows) = map col_session_id rows"
  by (simp add: update_last_seen_def cong: map_cong)

lemma update_last_seen_mem:
  "r \<in> set rows \<Longrightarrow> col_session_id r = sid \<Longrightarrow>
   r\<lparr>col_last_seen := now_ts\<rparr> \<in> set (update_last_seen now_ts sid rows)"
  by (force simp: update_last_seen_def)

lemma sessions_restarted:
  "sessions restarted =
     [\<lparr>col_session_id = ''A'', col_username = ''alice'', col_display = Some 11,
       col_websocket_port = Some 7700, col_created_at = 0, col_last_seen = 0\<rparr>,
      \<lparr>col_session_id = ''B'', col_username = ''bob'', col_display = Some 12,
       col_websocket_port = Some 7701, col_created_at = 1, col_last_seen = 1\<rparr>]"
  by code_simp

section \<open>The expiry sweep\<close>






lemma cleanup_expired_next_pid [simp]:
  "next_pid (cleanup_expired c now_ts s) = next_pid s"
  by (simp add: cleanup_expired_def Let_def)









section \<open>One session per owner\<close>







section \<open>Slot exclusivity and rollback\<close>

text \<open>
  What holds of C1: \<^verbatim>\<open>start_session\<close> and \<^verbatim>\<open>stop_session\<close> keep the displays of the live
  instances distinct, and \<^verbatim>\<open>ensure_session\<close> does when the display it is given is not in use.
\<close>

lemma allocate_slot_unused:
  "allocate_slot c s = Inr (d, p) \<Longrightarrow> d \<notin> set (used_displays s)"
  by (auto simp: allocate_slot_def split: option.splits dest!: first_free_upt)

lemma used_displays_frame:
  "instances s' = instances s \<Longrightarrow> used_displays s' = used_displays s"
  by (simp add: used_displays_def)

lemma start_session_exclusive:
  assumes "slots_exclusive s"
  shows "slots_exclusive (snd (start_session c a sid user s))"
proof (cases "start_session c a sid user s")
  case (Pair r s')
  show ?thesis
  proof (cases r)
    case (Inl e)
    with Pair have "instances s' = instances s" by (simp add: start_session_fails_instances)
    with assms Pair show ?thesis by (simp add: slots_exclusive_def used_displays_def)
  next
    case (Inr slot)
    show ?thesis
    proof (cases "map_of (instances s) sid")
      case (Some i)
      with Pair have "s' = s" by (simp add: start_session_def)
      with assms Pair show ?thesis by simp
    next
      case None
      with Pair Inr obtain d p ps s1 where
        alloc: "allocate_slot c s = Inr (d, p)" and
        steps: "run_steps a d s = (None, ps, s1)" and
        s': "s' = s1\<lparr>instances := AList.update sid
                       \<lparr>session_id = sid, username = user, display = d,
                        websocket_port = p, processes = ps\<rparr> (instances s1)\<rparr>"
        by (auto simp: start_session_def split: sum.splits prod.splits option.splits)
      from run_steps_frame(1)[OF steps] have fr: "instances s1 = instances s" .
      have "used_displays s' = used_displays s @ [d]"
        using None fr by (simp add: s' used_displays_def update_fresh)
      with assms allocate_slot_unused[OF alloc] Pair show ?thesis
        by (simp add: slots_exclusive_def)
    qed
  qed
qed

lemma stop_session_exclusive:
  "slots_exclusive s \<Longrightarrow> slots_exclusive (stop_session sid s)"
  by (simp add: slots_exclusive_def used_displays_def AList.delete_eq distinct_map_filter)

lemma ensure_session_exclusive:
  assumes "slots_exclusive s" and "d \<notin> set (used_displays s)"
  shows "slots_exclusive (snd (ensure_session a sid user d p s))"
proof (cases "map_of (instances s) sid")
  case (Some i)
  with assms show ?thesis by (simp add: ensure_session_def)
next
  case None
  obtain r ps s1 where steps: "run_steps a d s = (r, ps, s1)"
    by (cases "run_steps a d s") auto
  from run_steps_frame(1)[OF steps] have fr: "instances s1 = instances s" .
  show ?thesis
  proof (cases r)
    case None': None
    have "used_displays (snd (ensure_session a sid user d p s)) = used_displays s @ [d]"
      using None None' steps fr by (simp add: ensure_session_def used_displays_def update_fresh)
    with assms show ?thesis by (simp add: slots_exclusive_def)
  next
    case (Some st)
    with None steps fr assms show ?thesis
      by (simp add: ensure_session_def slots_exclusive_def used_displays_def)
  qed
qed

text \<open>
  What holds of C2: a failed \<^verbatim>\<open>start_session\<close> leaves the dictionary as it was, so the same
  offsets are free afterwards and \<^verbatim>\<open>_allocate_slot\<close> answers as before.
\<close>

lemma start_session_failure_releases_slot:
  assumes "start_session c a sid user s = (Inl e, s')"
  shows "instances s' = instances s \<and> free_slots c s' = free_slots c s \<and>
         allocate_slot c s' = allocate_slot c s"
proof -
  from start_session_fails_instances[OF assms] have "instances s' = instances s" .
  then show ?thesis
    by (simp add: free_slots_def allocate_slot_def used_displays_def)
qed

text \<open>
  C1 fails on the code. \<^verbatim>\<open>ensure_session\<close> starts a session on the display it is given
  without looking at the displays in use: with \<open>A\<close> live on display 11, resuming \<open>B\<close> at
  display 11 leaves both live on 11. The store reaches this: alice logs in (display 11),
  the service restarts, bob logs in and \<^verbatim>\<open>_allocate_slot\<close> hands him display 11 (the new
  dictionary is empty), then alice's next \<^verbatim>\<open>validate\<close> resumes her session at the display
  of her row, 11.
\<close>

theorem ensure_session_shares_display:
  "slots_exclusive live_A \<and>
   map (\<lambda>(k, i). (k, display i))
     (instances (snd (ensure_session all_ok ''B'' ''bob'' 11 7700 live_A))) =
     [(''A'', 11), (''B'', 11)] \<and>
   \<not> slots_exclusive (snd (ensure_session all_ok ''B'' ''bob'' 11 7700 live_A)) \<and>
   fst (create_session default_config all_ok ''B'' 10 ''bob'' (restart store_A)) =
     Inr (''B'', 10, 11, 7700) \<and>
   fst (validate default_config all_ok 20 ''A''
          (snd (create_session default_config all_ok ''B'' 10 ''bob'' (restart store_A)))) =
     Inr (Some (''alice'', 0, 0, 11, 7700)) \<and>
   map (\<lambda>(k, i). (k, display i))
     (instances (snd (validate default_config all_ok 20 ''A''
        (snd (create_session default_config all_ok ''B'' 10 ''bob'' (restart store_A)))))) =
     [(''B'', 11), (''A'', 11)]"
  by code_simp

text \<open>
  C2 fails on the code. DOSBox starts as a process that does not exit on SIGTERM, then
  starting websockify raises: the \<^verbatim>\<open>except\<close> block of \<^verbatim>\<open>start_session\<close> only calls
  \<^verbatim>\<open>terminate\<close>, so the error is returned while the DOSBox process still runs, and no
  instance holds its handle. The loop of \<^verbatim>\<open>stop_session\<close> (terminate, wait, kill) would
  have stopped it.
\<close>

theorem start_session_rollback_leaves_process_running:
  "fst (start_session default_config relay_fails ''A'' ''alice'' initial) =
     Inl (Failed_to_provision Start_websockify) \<and>
   instances (snd (start_session default_config relay_fails ''A'' ''alice'' initial)) = [] \<and>
   poll_is_None (snd (start_session default_config relay_fails ''A'' ''alice'' initial)) 0 \<and>
   \<not> poll_is_None
       (stop_processes [0] (snd (start_session default_config relay_fails ''A'' ''alice'' initial))) 0"
  by code_simp

section \<open>Failure of a resume: what holds and what does not\<close>

text \<open>
  What holds of C8. When \<^verbatim>\<open>validate\<close> raises (the table's primary key makes the session ids
  distinct), the error is the \<^verbatim>\<open>InstanceError\<close> "Failed to resume session" of
  \<^verbatim>\<open>ensure_session\<close>, never the "Failed to provision session" one of \<^verbatim>\<open>start_session\<close>;
  the state is the one the shared \<^verbatim>\<open>except\<close> block (\<open>cleanup_failed\<close>) leaves after the
  steps that ran on the swept table; the row \<open>r\<close> of the key is still in the table, with
  \<^verbatim>\<open>last_seen\<close> set to this call's time, and the key is not live. So a later \<^verbatim>\<open>validate\<close>
  of the key, before the row expires and with a backend whose three steps succeed, runs
  \<^verbatim>\<open>ensure_session\<close> again and returns the session, live at the row's display and port.
\<close>

lemma validate_resume_failure:
  assumes "validate c a now_ts sid s = (Inl e, s')"
    and "distinct (map col_session_id (sessions s))"
  shows "\<exists>st r d p.
      e = Failed_to_resume st \<and> (\<forall>st'. e \<noteq> Failed_to_provision st') \<and>
      r \<in> set (sessions s) \<and> col_session_id r = sid \<and>
      col_display r = Some d \<and> col_websocket_port r = Some p \<and>
      r\<lparr>col_last_seen := now_ts\<rparr> \<in> set (sessions s') \<and>
      map_of (instances s') sid = None \<and>
      (\<exists>ps s1.
          run_steps a d ((cleanup_expired c now_ts s)\<lparr>sessions := update_last_seen now_ts sid
             (filter (\<lambda>r. \<not> expired c now_ts r) (sessions s))\<rparr>) = (Some st, ps, s1) \<and>
          s' = cleanup_failed ps d s1) \<and>
      (\<forall>a' now'.
          vnc_returncode a' = 0 \<and> dosbox_spawn a' \<noteq> SpawnFails \<and>
          websockify_spawn a' \<noteq> SpawnFails \<and>
          now' - now_ts \<le> idle_timeout c \<and> now' - col_created_at r \<le> absolute_timeout c \<longrightarrow>
          (\<exists>s'' i. validate c a' now' sid s' =
                     (Inr (Some (col_username r, col_created_at r, now_ts, d, p)), s'') \<and>
                   map_of (instances s'') sid = Some i \<and>
                   display i = d \<and> websocket_port i = p))"
proof -
  define s2 where "s2 = (cleanup_expired c now_ts s)\<lparr>sessions := update_last_seen now_ts sid
           (filter (\<lambda>r. \<not> expired c now_ts r) (sessions s))\<rparr>"
  from validate_raises[OF assms(1)] obtain r d p where
    sid: "sid \<noteq> []" and
    found: "find (\<lambda>r. col_session_id r = sid)
       (filter (\<lambda>r. \<not> expired c now_ts r) (sessions s)) = Some r" and
    slot: "col_display r = Some d" "col_websocket_port r = Some p" and
    ens: "ensure_session a sid (col_username r) d p s2 = (Inl e, s')"
    unfolding s2_def by blast
  from find_row_Some[OF found] have r: "r \<in> set (sessions s)" "col_session_id r = sid"
    "\<not> expired c now_ts r" by auto
  from ensure_session_rollback[OF ens] obtain st ps s1 where
    absent2: "map_of (instances s2) sid = None" and
    e: "e = Failed_to_resume st" and
    steps: "run_steps a d s2 = (Some st, ps, s1)" and
    s': "s' = cleanup_failed ps d s1"
    by blast
  have ses: "sessions s' = update_last_seen now_ts sid
      (filter (\<lambda>r. \<not> expired c now_ts r) (sessions s))"
    using ensure_session_sessions[of a sid "col_username r" d p s2] ens
    by (simp add: s2_def)
  have inst: "instances s' = instances s2"
    by (rule ensure_session_fails_instances[OF ens])
  have absent: "map_of (instances s') sid = None"
    using absent2 inst by simp
  define r' where "r' = r\<lparr>col_last_seen := now_ts\<rparr>"
  have r'_mem: "r' \<in> set (sessions s')"
    unfolding ses r'_def using r by (intro update_last_seen_mem) auto
  have dist': "distinct (map col_session_id (sessions s'))"
    unfolding ses using assms(2) by (simp add: distinct_map_filter)
  have retry: "\<exists>s'' i. validate c a' now' sid s' =
                     (Inr (Some (col_username r, col_created_at r, now_ts, d, p)), s'') \<and>
                   map_of (instances s'') sid = Some i \<and>
                   display i = d \<and> websocket_port i = p"
    if ok: "vnc_returncode a' = 0" "dosbox_spawn a' \<noteq> SpawnFails"
      "websockify_spawn a' \<noteq> SpawnFails"
      and fresh: "now' - now_ts \<le> idle_timeout c" "now' - col_created_at r \<le> absolute_timeout c"
    for a' now'
  proof -
    have unexp: "\<not> expired c now' r'"
      using fresh by (simp add: expired_def r'_def)
    have key: "col_session_id r' = sid" using r(2) by (simp add: r'_def)
    have "find (\<lambda>x. col_session_id x = col_session_id r')
        (filter (\<lambda>r. \<not> expired c now' r) (sessions s')) = Some r'"
      using dist' r'_mem unexp by (intro find_distinct_key) (simp_all add: distinct_map_filter)
    then have found': "find (\<lambda>x. col_session_id x = sid)
        (sessions (cleanup_expired c now' s')) = Some r'"
      by (simp add: key)
    define t2 where "t2 = (cleanup_expired c now' s')\<lparr>sessions :=
        update_last_seen now' sid (sessions (cleanup_expired c now' s'))\<rparr>"
    have "map_of (instances t2) sid = None"
      using absent by (simp add: t2_def map_of_cleanup_expired)
    from ensure_session_succeeds[OF ok this, of "col_username r'" d p]
    obtain s'' ps' where
      ens': "ensure_session a' sid (col_username r') d p t2 = (Inr (), s'')" and
      live: "map_of (instances s'') sid =
             Some \<lparr>session_id = sid, username = col_username r', display = d,
               websocket_port = p, processes = ps'\<rparr>"
      by blast
    have "validate c a' now' sid s' =
        (Inr (Some (col_username r', col_created_at r', col_last_seen r', d, p)), s'')"
      using sid found' ens' slot
      by (simp add: validate_def Let_def t2_def r'_def)
    then show ?thesis using live by (simp add: r'_def)
  qed
  show ?thesis
    apply (rule exI[of _ st], rule exI[of _ r], rule exI[of _ d], rule exI[of _ p])
    apply (intro conjI)
    subgoal by (rule e)
    subgoal by (simp add: e)
    subgoal by (rule r(1))
    subgoal by (rule r(2))
    subgoal by (rule slot(1))
    subgoal by (rule slot(2))
    subgoal using r'_mem by (simp add: r'_def)
    subgoal by (rule absent)
    subgoal using steps s' unfolding s2_def by blast
    subgoal using retry by blast
    done
qed

lemma validate_resume_failure_example:
  "validate default_config relay_fails 20 ''B'' restarted =
     (Inl (Failed_to_resume Start_websockify),
      snd (validate default_config relay_fails 20 ''B'' restarted)) \<and>
   distinct (map col_session_id (sessions restarted)) \<and>
   map (\<lambda>r. (col_session_id r, col_last_seen r))
     (sessions (snd (validate default_config relay_fails 20 ''B'' restarted))) =
     [(''A'', 0), (''B'', 20)] \<and>
   map_of (instances (snd (validate default_config relay_fails 20 ''B'' restarted))) ''B'' = None \<and>
   fst (validate default_config all_ok 30 ''B''
          (snd (validate default_config relay_fails 20 ''B'' restarted))) =
     Inr (Some (''bob'', 1, 20, 12, 7701))"
proof -
  define s' where "s' = snd (validate default_config relay_fails 20 ''B'' restarted)"
  have "fst (validate default_config relay_fails 20 ''B'' restarted) =
      Inl (Failed_to_resume Start_websockify)"
    by code_simp
  then have h: "validate default_config relay_fails 20 ''B'' restarted =
     (Inl (Failed_to_resume Start_websockify), s')"
    by (simp add: prod_eq_iff s'_def)
  have dist: "distinct (map col_session_id (sessions restarted))"
    by (simp add: sessions_restarted)
  have rows: "map (\<lambda>r. (col_session_id r, col_last_seen r)) (sessions s') =
     [(''A'', 0), (''B'', 20)]"
    unfolding s'_def by code_simp
  from validate_resume_failure[OF h dist] obtain r d p where
    r: "r \<in> set (sessions restarted)" "col_session_id r = ''B''"
      "col_display r = Some d" "col_websocket_port r = Some p" and
    absent: "map_of (instances s') ''B'' = None" and
    retry: "\<forall>a' now'.
          vnc_returncode a' = 0 \<and> dosbox_spawn a' \<noteq> SpawnFails \<and>
          websockify_spawn a' \<noteq> SpawnFails \<and>
          now' - 20 \<le> idle_timeout default_config \<and>
          now' - col_created_at r \<le> absolute_timeout default_config \<longrightarrow>
          (\<exists>s'' i. validate default_config a' now' ''B'' s' =
                     (Inr (Some (col_username r, col_created_at r, 20, d, p)), s'') \<and>
                   map_of (instances s'') ''B'' = Some i \<and>
                   display i = d \<and> websocket_port i = p)"
    by blast
  from r have r_eq: "col_username r = ''bob''" "col_created_at r = 1" "d = 12" "p = 7701"
    by (auto simp: sessions_restarted)
  have "vnc_returncode all_ok = 0 \<and> dosbox_spawn all_ok \<noteq> SpawnFails \<and>
          websockify_spawn all_ok \<noteq> SpawnFails \<and>
          30 - 20 \<le> idle_timeout default_config \<and>
          30 - col_created_at r \<le> absolute_timeout default_config"
    by (simp add: all_ok_def default_config_def r_eq)
  with retry obtain s'' where
    "validate default_config all_ok 30 ''B'' s' =
       (Inr (Some (col_username r, col_created_at r, 20, d, p)), s'')"
    by blast
  then have again: "fst (validate default_config all_ok 30 ''B'' s') =
      Inr (Some (''bob'', 1, 20, 12, 7701))"
    by (simp add: r_eq)
  from h dist rows absent again show ?thesis
    unfolding s'_def by simp
qed

text \<open>
  C8 fails on the code, by the defect of C2: the \<^verbatim>\<open>except\<close> block of \<^verbatim>\<open>ensure_session\<close> only
  calls \<^verbatim>\<open>terminate\<close>. After a restart, bob's \<^verbatim>\<open>validate\<close> resumes his session; DOSBox
  starts (process 4) and does not exit on SIGTERM, then starting websockify raises. The
  error is returned while process 4 still runs, no instance holds its handle, and the
  loop of \<^verbatim>\<open>stop_session\<close> would have stopped it.
\<close>

theorem validate_resume_rollback_leaves_process_running:
  "fst (validate default_config relay_fails 20 ''B'' restarted) =
     Inl (Failed_to_resume Start_websockify) \<and>
   next_pid restarted = 4 \<and>
   instances (snd (validate default_config relay_fails 20 ''B'' restarted)) = [] \<and>
   poll_is_None (snd (validate default_config relay_fails 20 ''B'' restarted)) 4 \<and>
   \<not> poll_is_None
       (stop_processes [4] (snd (validate default_config relay_fails 20 ''B'' restarted))) 4"
  by code_simp

section \<open>Resuming a session at its recorded slot\<close>

lemma ensure_session_provisions:
  assumes "ensure_session a sid user d p s = (Inr u, s')" and "map_of (instances s) sid = None"
  shows "map_of (instances s') sid =
           Some \<lparr>session_id = sid, username = user, display = d, websocket_port = p,
                 processes = [next_pid s, Suc (next_pid s)]\<rparr> \<and>
         d \<in> vnc_up s' \<and>
         poll_is_None s' (next_pid s) \<and> poll_is_None s' (Suc (next_pid s))"
  using assms
  by (auto simp: ensure_session_def run_steps_def start_vnc_def vnc_kill_def spawn_process_def
      poll_is_None_def Let_def update_conv'
      split: option.splits prod.splits spawn.splits if_splits)

text \<open>
  C5. When \<^verbatim>\<open>validate\<close> returns a session, it is the one of an unexpired row \<open>r\<close> with the
  given key whose display \<open>d\<close> and port \<open>p\<close> are set; afterwards the key is live. If it was
  not live before the call, it has been provisioned again at the slot of the row, not at
  an allocated one (\<^verbatim>\<open>ensure_session\<close> never calls \<^verbatim>\<open>_allocate_slot\<close>): its instance holds
  the row's user, display \<open>d\<close> and port \<open>p\<close>, a VNC server runs on display \<open>d\<close>, and the
  instance's handles are the two processes spawned by this call, both running. When the
  key is already live, \<^verbatim>\<open>ensure_session\<close> returns at once and changes nothing.
\<close>

theorem validate_resumes_at_recorded_slot:
  assumes "validate c a now_ts sid s = (Inr (Some res), s')"
  shows "(\<exists>r \<in> set (sessions s). \<exists>d p.
            col_session_id r = sid \<and> \<not> expired c now_ts r \<and>
            col_display r = Some d \<and> col_websocket_port r = Some p \<and>
            res = (col_username r, col_created_at r, col_last_seen r, d, p) \<and>
            (\<exists>i. map_of (instances s') sid = Some i \<and>
               (map_of (instances s) sid = None \<longrightarrow>
                  i = \<lparr>session_id = sid, username = col_username r, display = d,
                        websocket_port = p, processes = [next_pid s, Suc (next_pid s)]\<rparr> \<and>
                  d \<in> vnc_up s' \<and>
                  poll_is_None s' (next_pid s) \<and> poll_is_None s' (Suc (next_pid s))))) \<and>
         (\<forall>i user d p s0. map_of (instances s0) sid = Some i \<longrightarrow>
            ensure_session a sid user d p s0 = (Inr (), s0))"
proof (intro conjI allI impI)
  from validate_succeeds[OF assms] obtain r d p where
    found: "find (\<lambda>r. col_session_id r = sid)
       (filter (\<lambda>r. \<not> expired c now_ts r) (sessions s)) = Some r" and
    slot: "col_display r = Some d" "col_websocket_port r = Some p" and
    ens: "ensure_session a sid (col_username r) d p
       ((cleanup_expired c now_ts s)\<lparr>sessions := update_last_seen now_ts sid
           (filter (\<lambda>r. \<not> expired c now_ts r) (sessions s))\<rparr>) = (Inr (), s')" and
    res: "res = (col_username r, col_created_at r, col_last_seen r, d, p)"
    by blast
  define s2 where "s2 = (cleanup_expired c now_ts s)\<lparr>sessions := update_last_seen now_ts sid
           (filter (\<lambda>r. \<not> expired c now_ts r) (sessions s))\<rparr>"
  have pid2: "next_pid s2 = next_pid s" by (simp add: s2_def)
  from find_row_Some[OF found] have r: "r \<in> set (sessions s)" "col_session_id r = sid"
    "\<not> expired c now_ts r" by auto
  have live: "\<exists>i. map_of (instances s') sid = Some i \<and>
      (map_of (instances s) sid = None \<longrightarrow>
         i = \<lparr>session_id = sid, username = col_username r, display = d,
               websocket_port = p, processes = [next_pid s, Suc (next_pid s)]\<rparr> \<and>
         d \<in> vnc_up s' \<and>
         poll_is_None s' (next_pid s) \<and> poll_is_None s' (Suc (next_pid s)))"
  proof (cases "map_of (instances s2) sid")
    case None
    from ensure_session_provisions[OF ens[folded s2_def] None] show ?thesis
      by (simp add: pid2)
  next
    case (Some i)
    from ensure_session_live[OF Some, of a "col_username r" d p] ens
    have "s' = s2" by (simp add: s2_def)
    moreover have "map_of (instances s) sid \<noteq> None"
      using Some by (auto simp: s2_def map_of_cleanup_expired split: if_splits)
    ultimately show ?thesis using Some by auto
  qed
  with r slot res show "\<exists>r \<in> set (sessions s). \<exists>d p.
            col_session_id r = sid \<and> \<not> expired c now_ts r \<and>
            col_display r = Some d \<and> col_websocket_port r = Some p \<and>
            res = (col_username r, col_created_at r, col_last_seen r, d, p) \<and>
            (\<exists>i. map_of (instances s') sid = Some i \<and>
               (map_of (instances s) sid = None \<longrightarrow>
                  i = \<lparr>session_id = sid, username = col_username r, display = d,
                        websocket_port = p, processes = [next_pid s, Suc (next_pid s)]\<rparr> \<and>
                  d \<in> vnc_up s' \<and>
                  poll_is_None s' (next_pid s) \<and> poll_is_None s' (Suc (next_pid s))))"
    by (intro bexI[of _ r] exI[of _ d] exI[of _ p]) simp_all
next
  fix i :: Instance and user d p and s0 :: state
  assume "map_of (instances s0) sid = Some i"
  then show "ensure_session a sid user d p s0 = (Inr (), s0)"
    by (rule ensure_session_live)
qed

lemma restarted_facts:
  "next_pid restarted = 4 \<and>
   allocate_slot default_config restarted = Inr (11, 7700)"
  by code_simp

theorem validate_resumes_at_recorded_slot_witness:
  "validate default_config all_ok 20 ''B'' restarted =
     (Inr (Some (''bob'', 1, 1, 12, 7701)), snd (validate default_config all_ok 20 ''B'' restarted)) \<and>
   map_of (instances restarted) ''B'' = None \<and>
   next_pid restarted = 4 \<and>
   allocate_slot default_config restarted = Inr (11, 7700) \<and>
   map_of (instances (snd (validate default_config all_ok 20 ''B'' restarted))) ''B'' =
     Some \<lparr>session_id = ''B'', username = ''bob'', display = 12, websocket_port = 7701,
           processes = [4, 5]\<rparr> \<and>
   12 \<in> vnc_up (snd (validate default_config all_ok 20 ''B'' restarted)) \<and>
   poll_is_None (snd (validate default_config all_ok 20 ''B'' restarted)) 4 \<and>
   poll_is_None (snd (validate default_config all_ok 20 ''B'' restarted)) 5 \<and>
   map_of (instances two_sessions) ''B'' \<noteq> None \<and>
   ensure_session all_ok ''B'' ''bob'' 12 7701 two_sessions = (Inr (), two_sessions)"
proof -
  define s' where "s' = snd (validate default_config all_ok 20 ''B'' restarted)"
  have "fst (validate default_config all_ok 20 ''B'' restarted) =
      Inr (Some (''bob'', 1, 1, 12, 7701))"
    by code_simp
  then have h: "validate default_config all_ok 20 ''B'' restarted =
     (Inr (Some (''bob'', 1, 1, 12, 7701)), s')"
    by (simp add: prod_eq_iff s'_def)
  have absent: "map_of (instances restarted) ''B'' = None"
    by (simp add: restarted_def restart_def)
  have "''B'' \<in> fst ` set (instances two_sessions)"
    using keys_two_sessions by (metis list.set_intros(1,2) list.set_map)
  then obtain j where live: "map_of (instances two_sessions) ''B'' = Some j"
    by (cases "map_of (instances two_sessions) ''B''") (auto simp: map_of_eq_None_iff)
  note claim = validate_resumes_at_recorded_slot[OF h]
  from claim[THEN conjunct1] obtain r d p and i :: Instance where
    r: "r \<in> set (sessions restarted)" "col_session_id r = ''B''"
      "col_display r = Some d" "col_websocket_port r = Some p" and
    i: "map_of (instances s') ''B'' = Some i" and
    fresh: "map_of (instances restarted) ''B'' = None \<longrightarrow>
        i = \<lparr>session_id = ''B'', username = col_username r, display = d,
              websocket_port = p, processes = [next_pid restarted, Suc (next_pid restarted)]\<rparr> \<and>
        d \<in> vnc_up s' \<and>
        poll_is_None s' (next_pid restarted) \<and> poll_is_None s' (Suc (next_pid restarted))"
    by (elim bexE exE conjE) (rule that)
  from claim[THEN conjunct2]
  have noop: "\<forall>i user d p s0. map_of (instances s0) ''B'' = Some i \<longrightarrow>
        ensure_session all_ok ''B'' user d p s0 = (Inr (), s0)" .
  from r have r_eq: "col_username r = ''bob''" "d = 12" "p = 7701"
    by (auto simp: sessions_restarted)
  from fresh absent i restarted_facts r_eq
  have resumed: "map_of (instances s') ''B'' =
       Some \<lparr>session_id = ''B'', username = ''bob'', display = 12, websocket_port = 7701,
             processes = [4, 5]\<rparr>"
      "12 \<in> vnc_up s'" "poll_is_None s' 4" "poll_is_None s' 5"
    by (simp_all add: eval_nat_numeral)
  from noop live
  have "ensure_session all_ok ''B'' ''bob'' 12 7701 two_sessions = (Inr (), two_sessions)"
    by blast
  with h absent restarted_facts resumed live show ?thesis
    unfolding s'_def by simp
qed

section \<open>A failed login leaves the owner without a session\<close>

lemma stop_session_vnc_subset: "vnc_up (stop_session sid s) \<subseteq> vnc_up s"
  by (auto simp: stop_session_def split: option.splits)

lemma stop_session_kills_vnc:
  "map_of (instances s) sid = Some i \<Longrightarrow> display i \<notin> vnc_up (stop_session sid s)"
  by (simp add: stop_session_def)

lemma stop_sessions_vnc_subset: "vnc_up (stop_sessions sids s) \<subseteq> vnc_up s"
proof (induction sids arbitrary: s)
  case Nil
  then show ?case by simp
next
  case (Cons sid sids)
  have "vnc_up (stop_sessions sids (stop_session sid s)) \<subseteq> vnc_up (stop_session sid s)"
    by (rule Cons.IH)
  also have "\<dots> \<subseteq> vnc_up s" by (rule stop_session_vnc_subset)
  finally show ?case by simp
qed

lemma stop_sessions_kills_vnc:
  "map_of (instances s) k = Some i \<Longrightarrow> k \<in> set sids \<Longrightarrow>
   display i \<notin> vnc_up (stop_sessions sids s)"
proof (induction sids arbitrary: s)
  case Nil
  then show ?case by simp
next
  case (Cons sid sids)
  show ?case
  proof (cases "sid = k")
    case True
    with Cons.prems have "display i \<notin> vnc_up (stop_session sid s)"
      by (simp add: stop_session_kills_vnc)
    then show ?thesis using stop_sessions_vnc_subset[of sids "stop_session sid s"] by auto
  next
    case False
    with Cons.prems have "map_of (instances (stop_session sid s)) k = Some i" "k \<in> set sids"
      by (auto simp: delete_conv')
    with Cons.IH show ?thesis by simp
  qed
qed

lemma run_steps_vnc:
  "run_steps a d s = (Some st, ps, s1) \<Longrightarrow> vnc_up s1 - {d} \<subseteq> vnc_up s"
  by (auto simp: run_steps_def start_vnc_def spawn_process_def Let_def vnc_kill_def
      split: if_splits spawn.splits)

lemma start_session_fails_vnc:
  "start_session c a sid user s = (Inl e, s') \<Longrightarrow> vnc_up s' \<subseteq> vnc_up s"
  by (auto simp: start_session_def split: option.splits sum.splits prod.splits
      dest!: run_steps_vnc)

text \<open>
  C10. When \<^verbatim>\<open>create_session\<close> raises an \<^verbatim>\<open>InstanceError\<close>, the provisioning was attempted
  in a state \<open>s2\<close> where the owner's rows were already deleted and the instances of those
  rows already torn down: none of them in the dictionary, no VNC server on their
  displays, none of their processes running. Afterwards the owner has no row at all, and
  none of the old sessions is live, has a VNC server on its display or (from a state
  whose handles are spawned processes) a running process: the prior session is not
  restored.
\<close>

theorem create_session_failure_leaves_owner_without_session:
  assumes "create_session c a sid now_ts user s = (Inl (InstanceError e), s')"
  shows "\<exists>s2. sessions s2 = filter (\<lambda>r. col_username r \<noteq> user) (sessions s) \<and>
              (\<forall>r \<in> set (sessions s). col_username r = user \<longrightarrow>
                  map_of (instances s2) (col_session_id r) = None \<and>
                  (\<forall>i. map_of (instances s) (col_session_id r) = Some i \<longrightarrow>
                     display i \<notin> vnc_up s2 \<and>
                     (\<forall>q \<in> set (processes i). \<not> poll_is_None s2 q))) \<and>
              start_session c a sid user s2 = (Inl e, s') \<and>
              filter (\<lambda>r. col_username r = user) (sessions s') = [] \<and>
              (\<forall>r \<in> set (sessions s). col_username r = user \<longrightarrow>
                  map_of (instances s') (col_session_id r) = None \<and>
                  (\<forall>i. map_of (instances s) (col_session_id r) = Some i \<longrightarrow>
                     display i \<notin> vnc_up s' \<and>
                     (handles_spawned s \<longrightarrow>
                        (\<forall>q \<in> set (processes i). \<not> poll_is_None s' q))))"
proof -
  define old where "old = map col_session_id (filter (\<lambda>r. col_username r = user) (sessions s))"
  define s1 where "s1 = s\<lparr>sessions := filter (\<lambda>r. col_username r \<noteq> user) (sessions s)\<rparr>"
  define s2 where "s2 = stop_sessions old s1"
  have ses2: "sessions s2 = filter (\<lambda>r. col_username r \<noteq> user) (sessions s)"
    by (simp add: s2_def s1_def)
  from assms have start: "start_session c a sid user s2 = (Inl e, s')"
    by (auto simp: create_session_unfold s2_def s1_def old_def
        split: prod.splits sum.splits option.splits)
  from start_session_fails_instances[OF start] have inst: "instances s' = instances s2" .
  from create_session_fails_sessions[OF assms]
  have none: "filter (\<lambda>r. col_username r = user) (sessions s') = []"
    by (simp add: filter_empty_conv)
  have torn: "map_of (instances s2) (col_session_id r) = None \<and>
      (\<forall>i. map_of (instances s) (col_session_id r) = Some i \<longrightarrow>
         display i \<notin> vnc_up s2 \<and> (\<forall>q \<in> set (processes i). \<not> poll_is_None s2 q))"
    if r: "r \<in> set (sessions s)" "col_username r = user" for r
  proof (intro conjI allI impI ballI)
    from r have mem: "col_session_id r \<in> set old" by (auto simp: old_def)
    then show "map_of (instances s2) (col_session_id r) = None"
      by (simp add: s2_def map_of_stop_sessions)
    fix i :: Instance
    assume "map_of (instances s) (col_session_id r) = Some i"
    then have live: "map_of (instances s1) (col_session_id r) = Some i" by (simp add: s1_def)
    from stop_sessions_kills_vnc[OF live mem] show "display i \<notin> vnc_up s2"
      by (simp add: s2_def)
    fix q assume "q \<in> set (processes i)"
    with stop_sessions_stops[OF live mem] show "\<not> poll_is_None s2 q"
      by (simp add: s2_def)
  qed
  have after: "map_of (instances s') (col_session_id r) = None \<and>
      (\<forall>i. map_of (instances s) (col_session_id r) = Some i \<longrightarrow>
         display i \<notin> vnc_up s' \<and>
         (handles_spawned s \<longrightarrow> (\<forall>q \<in> set (processes i). \<not> poll_is_None s' q)))"
    if r: "r \<in> set (sessions s)" "col_username r = user" for r
  proof (intro conjI allI impI ballI)
    show "map_of (instances s') (col_session_id r) = None"
      using torn[OF r] inst by simp
    fix i :: Instance
    assume live: "map_of (instances s) (col_session_id r) = Some i"
    with torn[OF r] have t: "display i \<notin> vnc_up s2" "\<forall>q \<in> set (processes i). \<not> poll_is_None s2 q"
      by auto
    from t(1) start_session_fails_vnc[OF start] show "display i \<notin> vnc_up s'" by auto
    fix q assume wf: "handles_spawned s" and q: "q \<in> set (processes i)"
    from live have "(col_session_id r, i) \<in> set (instances s)" by (rule map_of_SomeD)
    with wf q have "q < next_pid s" by (auto simp: handles_spawned_def)
    then have "q < next_pid s2" by (simp add: s2_def s1_def)
    moreover from t(2) q have "\<not> poll_is_None s2 q" by blast
    ultimately have "\<not> poll_is_None (snd (start_session c a sid user s2)) q"
      by (rule start_session_old_not_running)
    then show "\<not> poll_is_None s' q" by (simp add: start)
  qed
  show ?thesis
    apply (rule exI[of _ s2])
    apply (intro conjI)
    subgoal by (rule ses2)
    subgoal using torn by blast
    subgoal by (rule start)
    subgoal by (rule none)
    subgoal using after by blast
    done
qed

lemma store_A_facts:
  "map (\<lambda>(k, i). (k, display i, processes i)) (instances store_A) = [(''A'', 11, [0, 1])] \<and>
   11 \<in> vnc_up store_A \<and> poll_is_None store_A 0 \<and> poll_is_None store_A 1 \<and>
   handles_spawned store_A"
  by code_simp

theorem create_session_failure_leaves_owner_without_session_witness:
  "create_session default_config vnc_fails ''A2'' 5 ''alice'' store_A =
     (Inl (InstanceError (Failed_to_provision Start_vnc)),
      snd (create_session default_config vnc_fails ''A2'' 5 ''alice'' store_A)) \<and>
   map col_session_id (filter (\<lambda>r. col_username r = ''alice'') (sessions store_A)) = [''A''] \<and>
   map (\<lambda>(k, i). (k, display i, processes i)) (instances store_A) = [(''A'', 11, [0, 1])] \<and>
   11 \<in> vnc_up store_A \<and> poll_is_None store_A 0 \<and> poll_is_None store_A 1 \<and>
   handles_spawned store_A \<and>
   filter (\<lambda>r. col_username r = ''alice'')
     (sessions (snd (create_session default_config vnc_fails ''A2'' 5 ''alice'' store_A))) = [] \<and>
   map_of (instances (snd (create_session default_config vnc_fails ''A2'' 5 ''alice'' store_A)))
     ''A'' = None \<and>
   11 \<notin> vnc_up (snd (create_session default_config vnc_fails ''A2'' 5 ''alice'' store_A)) \<and>
   \<not> poll_is_None (snd (create_session default_config vnc_fails ''A2'' 5 ''alice'' store_A)) 0 \<and>
   \<not> poll_is_None (snd (create_session default_config vnc_fails ''A2'' 5 ''alice'' store_A)) 1"
proof -
  define s' where "s' = snd (create_session default_config vnc_fails ''A2'' 5 ''alice'' store_A)"
  define r where "r = \<lparr>col_session_id = ''A'', col_username = ''alice'', col_display = Some 11,
       col_websocket_port = Some 7700, col_created_at = 0, col_last_seen = 0\<rparr>"
  have rows: "sessions store_A = [r]" by (simp add: sessions_store_A r_def)
  have "fst (create_session default_config vnc_fails ''A2'' 5 ''alice'' store_A) =
      Inl (InstanceError (Failed_to_provision Start_vnc))"
    by code_simp
  then have h: "create_session default_config vnc_fails ''A2'' 5 ''alice'' store_A =
     (Inl (InstanceError (Failed_to_provision Start_vnc)), s')"
    by (simp add: prod_eq_iff s'_def)
  obtain i where live: "map_of (instances store_A) ''A'' = Some i"
      "display i = 11" "processes i = [0, 1]"
    using store_A_facts by (cases "instances store_A") auto
  from create_session_failure_leaves_owner_without_session[OF h] obtain s2 where
    none: "filter (\<lambda>r. col_username r = ''alice'') (sessions s') = []" and
    after: "\<forall>r \<in> set (sessions store_A). col_username r = ''alice'' \<longrightarrow>
        map_of (instances s') (col_session_id r) = None \<and>
        (\<forall>i. map_of (instances store_A) (col_session_id r) = Some i \<longrightarrow>
           display i \<notin> vnc_up s' \<and>
           (handles_spawned store_A \<longrightarrow> (\<forall>q \<in> set (processes i). \<not> poll_is_None s' q)))"
    by (elim exE conjE) (rule that)
  from after have "map_of (instances s') ''A'' = None \<and>
        (\<forall>i. map_of (instances store_A) ''A'' = Some i \<longrightarrow>
           display i \<notin> vnc_up s' \<and>
           (handles_spawned store_A \<longrightarrow> (\<forall>q \<in> set (processes i). \<not> poll_is_None s' q)))"
    by (simp add: rows r_def)
  with live store_A_facts
  have gone: "map_of (instances s') ''A'' = None" "11 \<notin> vnc_up s'"
    "\<not> poll_is_None s' 0" "\<not> poll_is_None s' 1"
    by auto
  with h none store_A_facts show ?thesis
    unfolding s'_def by (simp add: rows r_def)
qed

end
